theory Spec2Isabelle
  imports Main "HOL-Library.Word"
begin

unbundle bit_operations_syntax

section \<open>The two-wire bus\<close>

text \<open>
  The driver in \<^verbatim>\<open>i2ceeprom.h\<close> sequences calls to Peter Fleury's I2C master
  library (\<^verbatim>\<open>i2c_init\<close>, \<^verbatim>\<open>i2c_start_wait\<close>, \<^verbatim>\<open>i2c_write\<close>, \<^verbatim>\<open>i2c_readAck\<close>,
  \<^verbatim>\<open>i2c_readNak\<close>, \<^verbatim>\<open>i2c_stop\<close>), which is not part of the repository.
\<close>

text \<open>
  Modelled from the spec: the bus primitives and the device behind them, which
  the driver calls and the repository does not contain.  They are the
  transport of section 6 (\<^verbatim>\<open>open_write(select)\<close>, \<^verbatim>\<open>open_read(select)\<close>,
  \<^verbatim>\<open>write_byte\<close>, \<^verbatim>\<open>read_byte_ack\<close>, \<^verbatim>\<open>read_byte_nak\<close>, \<^verbatim>\<open>close\<close>) over the
  ideal transport of section 8, which stores every payload byte at the address
  the transaction specifies and returns the stored bytes on a read.  The
  argument \<^verbatim>\<open>x + I2C_WRITE\<close> (or \<^verbatim>\<open>x + I2C_READ\<close>) of \<^verbatim>\<open>i2c_start_wait\<close> is
  kept as the select value \<open>x\<close> together with the direction.  The transport
  is blocking and every primitive returns; failures of the bus are not
  modelled, as the driver ignores every result but the bytes read.

  Every primitive appends one event to the \<open>trace\<close> of the world and steps
  the device: a write-mode start expects \<open>addr_width\<close> address bytes (most
  significant first), which set the \<open>pointer\<close>; every further byte written is
  stored in \<open>cells\<close> under the select value and the pointer, which then moves
  on by one; a read returns the cell under the pointer and moves it on by one;
  a stop idles the bus and keeps the pointer.
\<close>

datatype i2c_dir = I2C_WRITE | I2C_READ

datatype bus_event =
    Init
  | Start "8 word" i2c_dir
  | Write "8 word"
  | ReadAck
  | ReadNak
  | Stop

datatype bus_phase = Idle | Addressing "8 word list" | Storing | Fetching

record world =
  trace :: "bus_event list"
  phase :: bus_phase
  selected :: "8 word"
  pointer :: nat
  cells :: "8 word \<Rightarrow> nat \<Rightarrow> 8 word"
  addr_width :: nat

definition addr_value :: "8 word list \<Rightarrow> nat" where
  "addr_value bs = foldl (\<lambda>acc b. acc * 256 + unat b) 0 bs"

definition i2c_init :: "world \<Rightarrow> world" where
  "i2c_init w = w\<lparr>trace := trace w @ [Init]\<rparr>"

definition i2c_start_wait :: "8 word \<Rightarrow> i2c_dir \<Rightarrow> world \<Rightarrow> world" where
  "i2c_start_wait sel dir w =
     w\<lparr>trace := trace w @ [Start sel dir],
       phase := (case dir of I2C_WRITE \<Rightarrow> Addressing [] | I2C_READ \<Rightarrow> Fetching),
       selected := sel\<rparr>"

definition i2c_write :: "8 word \<Rightarrow> world \<Rightarrow> world" where
  "i2c_write b w =
     (case phase w of
        Addressing bs \<Rightarrow>
          (if addr_width w \<le> length (bs @ [b])
           then w\<lparr>trace := trace w @ [Write b], phase := Storing,
                  pointer := addr_value (bs @ [b])\<rparr>
           else w\<lparr>trace := trace w @ [Write b], phase := Addressing (bs @ [b])\<rparr>)
      | Storing \<Rightarrow>
          w\<lparr>trace := trace w @ [Write b], pointer := pointer w + 1,
            cells := (cells w)(selected w := (cells w (selected w))(pointer w := b))\<rparr>
      | _ \<Rightarrow> w\<lparr>trace := trace w @ [Write b]\<rparr>)"

definition fetch :: "world \<Rightarrow> 8 word \<times> world" where
  "fetch w =
     (case phase w of
        Fetching \<Rightarrow> (cells w (selected w) (pointer w), w\<lparr>pointer := pointer w + 1\<rparr>)
      | _ \<Rightarrow> (0xFF, w))"

definition i2c_readAck :: "world \<Rightarrow> 8 word \<times> world" where
  "i2c_readAck w = (case fetch w of (v, w') \<Rightarrow> (v, w'\<lparr>trace := trace w' @ [ReadAck]\<rparr>))"

definition i2c_readNak :: "world \<Rightarrow> 8 word \<times> world" where
  "i2c_readNak w = (case fetch w of (v, w') \<Rightarrow> (v, w'\<lparr>trace := trace w' @ [ReadNak]\<rparr>))"

definition i2c_stop :: "world \<Rightarrow> world" where
  "i2c_stop w = w\<lparr>trace := trace w @ [Stop], phase := Idle\<rparr>"

section \<open>The driver\<close>

text \<open>
  \<^verbatim>\<open>typedef struct eeprom { uint8_t eeprom_address; uint16_t eeprom_size; } eeprom;\<close>
\<close>

record eeprom =
  eeprom_address :: "8 word"
  eeprom_size :: "16 word"

text \<open>
  \<^verbatim>\<open>eeprom_init\<close> initialises the bus and stores both arguments in the instance.
  It returns nothing and has no failure path.
\<close>

definition eeprom_init :: "eeprom \<Rightarrow> 8 word \<Rightarrow> 16 word \<Rightarrow> world \<Rightarrow> eeprom \<times> world" where
  "eeprom_init a dev_address size_kbit w =
     (let w = i2c_init w;
          a = a\<lparr>eeprom_address := dev_address\<rparr>;
          a = a\<lparr>eeprom_size := size_kbit\<rparr>
      in (a, w))"

text \<open>
  The inner \<^verbatim>\<open>for\<close> loop of every branch of \<^verbatim>\<open>eeprom_write\<close>:
  \<^verbatim>\<open>for (i = pos_in_page; (i < LIM) && (bytes_written < datasize); ++i)
      { i2c_write(*(data + bytes_written)); ++bytes_written; }\<close>
  The counter \<open>i\<close> is a \<^verbatim>\<open>uint8_t\<close> in the branches up to 512 Kbit and a
  \<^verbatim>\<open>uint16_t\<close> in the 1 Mbit branch, hence the word length \<open>'a\<close>.  The payload
  is read through the pointer \<^verbatim>\<open>data\<close>: \<open>data k\<close> is the byte at \<^verbatim>\<open>*(data + k)\<close>.
\<close>

function page_for ::
  "'a::len word \<Rightarrow> 'a word \<Rightarrow> (nat \<Rightarrow> 8 word) \<Rightarrow> 16 word \<Rightarrow> 16 word \<Rightarrow> world \<Rightarrow> 16 word \<times> world"
where
  "page_for lim i data datasize bytes_written w =
     (if i < lim \<and> bytes_written < datasize
      then page_for lim (i + 1) data datasize (bytes_written + 1)
             (i2c_write (data (unat bytes_written)) w)
      else (bytes_written, w))"
  by pat_completeness auto
termination
proof (relation "measure (\<lambda>(lim, i, data, datasize, bytes_written, w). unat datasize - unat bytes_written)")
  show "wf (measure (\<lambda>(lim :: 'a word, i :: 'a word, data :: nat \<Rightarrow> 8 word, datasize :: 16 word,
                       bytes_written :: 16 word, w :: world). unat datasize - unat bytes_written))"
    by simp
next
  fix lim i :: "'a word" and data :: "nat \<Rightarrow> 8 word" and datasize bytes_written :: "16 word"
    and w :: world
  assume "i < lim \<and> bytes_written < datasize"
  then have lt: "unat bytes_written < unat datasize"
    by (simp add: word_less_nat_alt)
  have "unat datasize < 2 ^ 16"
    using unsigned_less [of datasize] by simp
  with lt have "unat (bytes_written + 1) = unat bytes_written + 1"
    by (simp add: unat_word_ariths)
  with lt show "((lim, i + 1, data, datasize, bytes_written + 1,
                  i2c_write (data (unat bytes_written)) w),
                 (lim, i, data, datasize, bytes_written, w))
                \<in> measure (\<lambda>(lim, i, data, datasize, bytes_written, w).
                     unat datasize - unat bytes_written)"
    by simp
qed

declare page_for.simps [simp del]

text \<open>
  The outer \<^verbatim>\<open>while (bytes_written < datasize)\<close> loop.  \<open>hdr\<close> is the part of
  the body before the \<^verbatim>\<open>for\<close> loop (the start and the address bytes, which
  depend on \<^verbatim>\<open>pos_in_page\<close>); after the \<^verbatim>\<open>for\<close> loop the body increments
  \<^verbatim>\<open>pages_written\<close> and resets \<^verbatim>\<open>pos_in_page\<close> to 0.  The loop makes progress
  only when the \<^verbatim>\<open>for\<close> loop writes a byte, so it is a partial function:
  \<open>None\<close> stands for a loop that does not return.
\<close>

partial_function (option) write_while ::
  "(16 word \<Rightarrow> world \<Rightarrow> world) \<Rightarrow> 'a::len word \<Rightarrow> (nat \<Rightarrow> 8 word) \<Rightarrow> 16 word \<Rightarrow>
   16 word \<Rightarrow> 16 word \<Rightarrow> 16 word \<Rightarrow> world \<Rightarrow> world option"
where
  "write_while hdr lim data datasize pos_in_page bytes_written pages_written w =
     (if bytes_written < datasize
      then (case page_for lim (ucast pos_in_page) data datasize bytes_written (hdr pos_in_page w) of
              (bytes_written', w') \<Rightarrow>
                write_while hdr lim data datasize 0 bytes_written' (pages_written + 1) w')
      else Some w)"


text \<open>
  \<^verbatim>\<open>eeprom_write\<close>: a chain of tests on \<^verbatim>\<open>a->eeprom_size\<close>, every branch with
  its own copy of the two loops and its own constants, then one \<^verbatim>\<open>i2c_stop()\<close>
  after the chain.  The arithmetic is that of avr-gcc (\<^verbatim>\<open>int\<close> has 16 bits):
  the address byte is computed in 16 bits and cut to 8 bits by the parameter
  type of \<^verbatim>\<open>i2c_write\<close>; \<^verbatim>\<open>actual_address\<close> is a \<^verbatim>\<open>uint8_t\<close>.
\<close>

definition eeprom_write ::
  "eeprom \<Rightarrow> 16 word \<Rightarrow> (nat \<Rightarrow> 8 word) \<Rightarrow> 16 word \<Rightarrow> world \<Rightarrow> world option"
where
  "eeprom_write a mem_address data datasize w =
     map_option i2c_stop
      (if eeprom_size a = 1 \<or> eeprom_size a = 2 then
         (let pos_in_page = mem_address mod 8
       in write_while
            (\<lambda>pos_in_page w.
               let w = i2c_start_wait (eeprom_address a) I2C_WRITE w;
                   w = i2c_write (ucast ((ucast (ucast mem_address :: 8 word) :: 16 word) + 8 * pos_in_page)) w
               in w)
            (8 :: 8 word) data datasize pos_in_page 0 0 w)
       else if eeprom_size a = 4 then
         (let pos_in_page = mem_address mod 16
       in write_while
            (\<lambda>pos_in_page w.
               let actual_address =
                     (ucast ((ucast (eeprom_address a) :: 16 word) OR (drop_bit 8 mem_address AND 1)) :: 8 word);
                   w = i2c_start_wait actual_address I2C_WRITE w;
                   w = i2c_write (ucast ((ucast (ucast mem_address :: 8 word) :: 16 word) + 16 * pos_in_page)) w
               in w)
            (16 :: 8 word) data datasize pos_in_page 0 0 w)
       else if eeprom_size a = 8 then
         (let pos_in_page = mem_address mod 16
       in write_while
            (\<lambda>pos_in_page w.
               let actual_address =
                     (ucast ((ucast (eeprom_address a) :: 16 word) OR (drop_bit 8 mem_address AND 3)) :: 8 word);
                   w = i2c_start_wait actual_address I2C_WRITE w;
                   w = i2c_write (ucast ((ucast (ucast mem_address :: 8 word) :: 16 word) + 16 * pos_in_page)) w
               in w)
            (16 :: 8 word) data datasize pos_in_page 0 0 w)
       else if eeprom_size a = 16 then
         (let pos_in_page = mem_address mod 16
       in write_while
            (\<lambda>pos_in_page w.
               let actual_address =
                     (ucast ((ucast (eeprom_address a) :: 16 word) OR (drop_bit 8 mem_address AND 7)) :: 8 word);
                   w = i2c_start_wait actual_address I2C_WRITE w;
                   w = i2c_write (ucast ((ucast (ucast mem_address :: 8 word) :: 16 word) + 16 * pos_in_page)) w
               in w)
            (16 :: 8 word) data datasize pos_in_page 0 0 w)
       else if eeprom_size a = 32 \<or> eeprom_size a = 64 then
         (let pos_in_page = mem_address mod 32
       in write_while
            (\<lambda>pos_in_page w.
               let w = i2c_start_wait (eeprom_address a) I2C_WRITE w;
                   w = i2c_write (ucast (drop_bit 8 (mem_address AND 0xFF00))) w;
                   w = i2c_write (ucast ((mem_address AND 0x00FF) + 32 * pos_in_page)) w
               in w)
            (32 :: 8 word) data datasize pos_in_page 0 0 w)
       else if eeprom_size a = 128 \<or> eeprom_size a = 256 then
         (let pos_in_page = mem_address mod 64
       in write_while
            (\<lambda>pos_in_page w.
               let w = i2c_start_wait (eeprom_address a) I2C_WRITE w;
                   w = i2c_write (ucast (drop_bit 8 (mem_address AND 0xFF00))) w;
                   w = i2c_write (ucast ((mem_address AND 0x00FF) + 64 * pos_in_page)) w
               in w)
            (64 :: 8 word) data datasize pos_in_page 0 0 w)
       else if eeprom_size a = 512 then
         (let pos_in_page = mem_address mod 128
       in write_while
            (\<lambda>pos_in_page w.
               let w = i2c_start_wait (eeprom_address a) I2C_WRITE w;
                   w = i2c_write (ucast (drop_bit 8 (mem_address AND 0xFF00))) w;
                   w = i2c_write (ucast ((mem_address AND 0x00FF) + 128 * pos_in_page)) w
               in w)
            (128 :: 8 word) data datasize pos_in_page 0 0 w)
       else if eeprom_size a = 1024 then
         (let pos_in_page = mem_address mod 256
       in write_while
            (\<lambda>pos_in_page w.
               let w = i2c_start_wait (eeprom_address a) I2C_WRITE w;
                   w = i2c_write (ucast (drop_bit 8 (mem_address AND 0xFF00))) w;
                   w = i2c_write (ucast ((mem_address AND 0x00FF) + 256 * pos_in_page)) w
               in w)
            (256 :: 16 word) data datasize pos_in_page 0 0 w)
       else Some w)"

text \<open>
  The read loop, the same in every branch of \<^verbatim>\<open>eeprom_read\<close>:
  \<^verbatim>\<open>while (bytes_read < datasize - 1) { *(data + bytes_read) = i2c_readAck(); ++bytes_read; }
  *(data + bytes_read) = i2c_readNak();\<close>
  Both operands of the comparison are \<^verbatim>\<open>uint16_t\<close>, that is \<^verbatim>\<open>unsigned int\<close>
  under avr-gcc, so \<^verbatim>\<open>datasize - 1\<close> is computed modulo \<open>2 ^ 16\<close>.  The output
  buffer is the map of the cells stored through \<^verbatim>\<open>data\<close>, by index.
\<close>

function read_while ::
  "(nat \<rightharpoonup> 8 word) \<Rightarrow> 16 word \<Rightarrow> 16 word \<Rightarrow> world \<Rightarrow> (nat \<rightharpoonup> 8 word) \<times> 16 word \<times> world"
where
  "read_while data datasize bytes_read w =
     (if bytes_read < datasize - 1
      then (case i2c_readAck w of
              (v, w') \<Rightarrow> read_while (data(unat bytes_read \<mapsto> v)) datasize (bytes_read + 1) w')
      else (data, bytes_read, w))"
  by pat_completeness auto
termination
proof (relation "measure (\<lambda>(data, datasize, bytes_read, w). unat (datasize - 1) - unat bytes_read)")
  show "wf (measure (\<lambda>(data :: nat \<rightharpoonup> 8 word, datasize :: 16 word, bytes_read :: 16 word,
                       w :: world). unat (datasize - 1) - unat bytes_read))"
    by simp
next
  fix data :: "nat \<rightharpoonup> 8 word" and datasize bytes_read :: "16 word" and w w' :: world
    and v :: "8 word" and p :: "8 word \<times> world"
  assume "bytes_read < datasize - 1"
  then have lt: "unat bytes_read < unat (datasize - 1)"
    by (simp add: word_less_nat_alt)
  have "unat (datasize - 1) < 2 ^ 16"
    using unsigned_less [of "datasize - 1"] by simp
  with lt have "unat (bytes_read + 1) = unat bytes_read + 1"
    by (simp add: unat_word_ariths)
  with lt show "((data(unat bytes_read \<mapsto> v), datasize, bytes_read + 1, w'),
                 (data, datasize, bytes_read, w))
                \<in> measure (\<lambda>(data, datasize, bytes_read, w).
                     unat (datasize - 1) - unat bytes_read)"
    by simp
qed

declare read_while.simps [simp del]

definition read_bytes ::
  "(nat \<rightharpoonup> 8 word) \<Rightarrow> 16 word \<Rightarrow> 16 word \<Rightarrow> world \<Rightarrow> (nat \<rightharpoonup> 8 word) \<times> world"
where
  "read_bytes data datasize bytes_read w =
     (case read_while data datasize bytes_read w of
        (data, bytes_read, w) \<Rightarrow>
          (case i2c_readNak w of (v, w) \<Rightarrow> (data(unat bytes_read \<mapsto> v), w)))"

text \<open>
  \<^verbatim>\<open>eeprom_read\<close>: the same chain of tests; every branch sets the address in
  a write-mode transaction, stops, starts in read mode and runs the read loop;
  one \<^verbatim>\<open>i2c_stop()\<close> follows the chain.  \<^verbatim>\<open>bytes_read\<close> is 0 when the
  branches begin (the 8 Kbit branch adds it to the address byte).
\<close>

definition eeprom_read ::
  "eeprom \<Rightarrow> 16 word \<Rightarrow> (nat \<rightharpoonup> 8 word) \<Rightarrow> 16 word \<Rightarrow> world \<Rightarrow> (nat \<rightharpoonup> 8 word) \<times> world"
where
  "eeprom_read a mem_address data datasize w =
     (let bytes_read = (0 :: 16 word);
          (data, w) =
       (if eeprom_size a = 1 \<or> eeprom_size a = 2 then
          (let w = i2c_start_wait (eeprom_address a) I2C_WRITE w;
               w = i2c_write (ucast mem_address) w;
               w = i2c_stop w;
               w = i2c_start_wait (eeprom_address a) I2C_READ w
           in read_bytes data datasize bytes_read w)
        else if eeprom_size a = 4 then
          (let actual_address =
                (ucast ((ucast (eeprom_address a) :: 16 word) OR (drop_bit 8 mem_address AND 1)) :: 8 word);
              w = i2c_start_wait actual_address I2C_WRITE w;
              w = i2c_write (ucast ((ucast mem_address :: 8 word))) w;
              w = i2c_stop w;
              w = i2c_start_wait actual_address I2C_READ w
          in read_bytes data datasize bytes_read w)
        else if eeprom_size a = 8 then
          (let actual_address =
                (ucast ((ucast (eeprom_address a) :: 16 word) OR (drop_bit 8 mem_address AND 3)) :: 8 word);
              w = i2c_start_wait actual_address I2C_WRITE w;
              w = i2c_write (ucast ((ucast (ucast mem_address :: 8 word) :: 16 word) + bytes_read)) w;
              w = i2c_stop w;
              w = i2c_start_wait actual_address I2C_READ w
          in read_bytes data datasize bytes_read w)
        else if eeprom_size a = 16 then
          (let actual_address =
                (ucast ((ucast (eeprom_address a) :: 16 word) OR (drop_bit 8 mem_address AND 7)) :: 8 word);
              w = i2c_start_wait actual_address I2C_WRITE w;
              w = i2c_write (ucast ((ucast mem_address :: 8 word))) w;
              w = i2c_stop w;
              w = i2c_start_wait actual_address I2C_READ w
          in read_bytes data datasize bytes_read w)
        else if eeprom_size a = 32 \<or> eeprom_size a = 64 \<or> eeprom_size a = 128 \<or>
                eeprom_size a = 256 \<or> eeprom_size a = 512 \<or> eeprom_size a = 1024 then
          (let w = i2c_start_wait (eeprom_address a) I2C_WRITE w;
               w = i2c_write (ucast (drop_bit 8 (mem_address AND 0xFF00))) w;
               w = i2c_write (ucast (mem_address AND 0x00FF)) w;
               w = i2c_stop w;
               w = i2c_start_wait (eeprom_address a) I2C_READ w
           in read_bytes data datasize bytes_read w)
        else (data, w))
      in (data, i2c_stop w))"

section \<open>The addressing scheme of the spec\<close>

text \<open>
  Section 3 of the spec derives the addressing scheme from the capacity class.
  The three tables below follow the spec's words; the theorems compare them
  with the constants of the branches of \<open>eeprom_write\<close> and \<open>eeprom_read\<close>.
\<close>

definition supported :: "16 word \<Rightarrow> bool" where
  "supported c \<longleftrightarrow> c \<in> {1, 2, 4, 8, 16, 32, 64, 128, 256, 512, 1024}"

definition spec_page_size :: "16 word \<Rightarrow> nat" where
  "spec_page_size c =
     (if c = 1 \<or> c = 2 then 8
      else if c = 4 \<or> c = 8 \<or> c = 16 then 16
      else if c = 32 \<or> c = 64 then 32
      else if c = 128 \<or> c = 256 then 64
      else if c = 512 then 128
      else if c = 1024 then 256
      else 0)"

definition spec_address_bits_in_select_byte :: "16 word \<Rightarrow> nat" where
  "spec_address_bits_in_select_byte c =
     (if c = 4 then 1 else if c = 8 then 2 else if c = 16 then 3 else 0)"

definition spec_uses_two_byte_address :: "16 word \<Rightarrow> bool" where
  "spec_uses_two_byte_address c \<longleftrightarrow> c \<in> {32, 64, 128, 256, 512, 1024}"

text \<open>
  The bus-select value of the spec: the high bits of the offset, shifted by 8
  and masked to the bit count of the scheme, are OR-ed into the bus address.
\<close>

definition select_byte :: "eeprom \<Rightarrow> 16 word \<Rightarrow> 8 word" where
  "select_byte a mem_address =
     eeprom_address a OR
       (ucast (drop_bit 8 mem_address) AND mask (spec_address_bits_in_select_byte (eeprom_size a)))"

section \<open>What a call puts on the bus\<close>

text \<open>
  The bytes of a call as lists, used to state the theorems.  \<open>write_bytes\<close>
  writes a list of bytes one after the other.  \<open>chunks ps pos from n\<close> lists
  the page chunks of a request of \<open>n\<close> bytes of which \<open>from\<close> are done, when
  the next byte goes to position \<open>pos\<close> of a page of \<open>ps\<close> bytes: each chunk
  is (position in the page, index of its first payload byte, number of bytes).
\<close>

definition write_bytes :: "8 word list \<Rightarrow> world \<Rightarrow> world" where
  "write_bytes bs w = foldl (\<lambda>w b. i2c_write b w) w bs"

function chunks :: "nat \<Rightarrow> nat \<Rightarrow> nat \<Rightarrow> nat \<Rightarrow> (nat \<times> nat \<times> nat) list" where
  "chunks ps pos from n =
     (if from < n \<and> pos < ps
      then (pos, from, min (ps - pos) (n - from)) #
           chunks ps 0 (from + min (ps - pos) (n - from)) n
      else [])"
  by pat_completeness auto
termination
  by (relation "measure (\<lambda>(ps, pos, from, n). n - from)") auto

declare chunks.simps [simp del]

text \<open>
  The address bytes that open a page-write transaction, as the code computes
  them: the low byte of the offset plus page size times position in the page
  (modulo 256), after the high byte of the offset in the two-byte scheme.
\<close>

definition address_bytes :: "eeprom \<Rightarrow> 16 word \<Rightarrow> 16 word \<Rightarrow> 8 word list" where
  "address_bytes a mem_address pos_in_page =
     (let lo = ucast mem_address + of_nat (spec_page_size (eeprom_size a)) * ucast pos_in_page
      in if spec_uses_two_byte_address (eeprom_size a)
         then [ucast (drop_bit 8 mem_address), lo] else [lo])"

definition write_header :: "eeprom \<Rightarrow> 16 word \<Rightarrow> 16 word \<Rightarrow> world \<Rightarrow> world" where
  "write_header a mem_address pos_in_page w =
     write_bytes (address_bytes a mem_address pos_in_page)
       (i2c_start_wait (select_byte a mem_address) I2C_WRITE w)"

definition run_chunks ::
  "(16 word \<Rightarrow> world \<Rightarrow> world) \<Rightarrow> (nat \<Rightarrow> 8 word) \<Rightarrow> (nat \<times> nat \<times> nat) list \<Rightarrow> world \<Rightarrow> world"
where
  "run_chunks hdr data cs w =
     foldl (\<lambda>w (pos, from, k). write_bytes (map data [from ..< from + k]) (hdr (of_nat pos) w)) w cs"

definition payload :: "(nat \<Rightarrow> 8 word) \<Rightarrow> nat \<Rightarrow> nat \<Rightarrow> bus_event list" where
  "payload data from k = map (\<lambda>j. Write (data j)) [from ..< from + k]"

definition chunk_events ::
  "eeprom \<Rightarrow> 16 word \<Rightarrow> (nat \<Rightarrow> 8 word) \<Rightarrow> nat \<times> nat \<times> nat \<Rightarrow> bus_event list"
where
  "chunk_events a mem_address data c =
     (case c of (pos, from, k) \<Rightarrow>
        Start (select_byte a mem_address) I2C_WRITE #
        map Write (address_bytes a mem_address (of_nat pos)) @ payload data from k)"

definition write_events ::
  "eeprom \<Rightarrow> 16 word \<Rightarrow> (nat \<Rightarrow> 8 word) \<Rightarrow> 16 word \<Rightarrow> bus_event list"
where
  "write_events a mem_address data datasize =
     concat (map (chunk_events a mem_address data)
       (chunks (spec_page_size (eeprom_size a))
          (unat mem_address mod spec_page_size (eeprom_size a)) 0 (unat datasize))) @ [Stop]"

definition read_address_bytes :: "eeprom \<Rightarrow> 16 word \<Rightarrow> 8 word list" where
  "read_address_bytes a mem_address =
     (if spec_uses_two_byte_address (eeprom_size a)
      then [ucast (drop_bit 8 mem_address), ucast mem_address] else [ucast mem_address])"

definition read_setup :: "eeprom \<Rightarrow> 16 word \<Rightarrow> world \<Rightarrow> world" where
  "read_setup a mem_address w =
     i2c_start_wait (select_byte a mem_address) I2C_READ
       (i2c_stop (write_bytes (read_address_bytes a mem_address)
          (i2c_start_wait (select_byte a mem_address) I2C_WRITE w)))"

definition read_events :: "eeprom \<Rightarrow> 16 word \<Rightarrow> 16 word \<Rightarrow> bus_event list" where
  "read_events a mem_address datasize =
     Start (select_byte a mem_address) I2C_WRITE #
     map Write (read_address_bytes a mem_address) @
     [Stop, Start (select_byte a mem_address) I2C_READ] @
     replicate (unat (datasize - 1)) ReadAck @ [ReadNak, Stop]"

text \<open>
  The events a call appends to the trace.  \<open>write_trace\<close> is \<open>None\<close> when
  \<open>eeprom_write\<close> does not return.
\<close>

definition emitted :: "world \<Rightarrow> world \<Rightarrow> bus_event list" where
  "emitted w w' = drop (length (trace w)) (trace w')"

definition write_trace ::
  "eeprom \<Rightarrow> 16 word \<Rightarrow> (nat \<Rightarrow> 8 word) \<Rightarrow> 16 word \<Rightarrow> world \<Rightarrow> bus_event list option"
where
  "write_trace a mem_address data datasize w =
     map_option (emitted w) (eeprom_write a mem_address data datasize w)"

definition read_trace ::
  "eeprom \<Rightarrow> 16 word \<Rightarrow> (nat \<rightharpoonup> 8 word) \<Rightarrow> 16 word \<Rightarrow> world \<Rightarrow> bus_event list"
where
  "read_trace a mem_address data datasize w =
     emitted w (snd (eeprom_read a mem_address data datasize w))"

text \<open>
  Writing a payload and reading the same number of bytes back from the same
  offset into an empty buffer: the cells of the buffer, by index.
\<close>

definition write_then_read ::
  "eeprom \<Rightarrow> 16 word \<Rightarrow> (nat \<Rightarrow> 8 word) \<Rightarrow> 16 word \<Rightarrow> world \<Rightarrow> 8 word option list option"
where
  "write_then_read a mem_address data datasize w =
     (case eeprom_write a mem_address data datasize w of
        None \<Rightarrow> None
      | Some w' \<Rightarrow>
          Some (map (fst (eeprom_read a mem_address Map.empty datasize w')) [0 ..< unat datasize]))"

text \<open>The cell of the device under a select value and an address, after a write.\<close>

definition stored :: "world option \<Rightarrow> 8 word \<Rightarrow> nat \<Rightarrow> 8 word option" where
  "stored r s p = map_option (\<lambda>w. cells w s p) r"

text \<open>Predicates on events and traces.\<close>

definition is_read :: "bus_event \<Rightarrow> bool" where
  "is_read e \<longleftrightarrow> e = ReadAck \<or> e = ReadNak"

definition is_write_start :: "bus_event \<Rightarrow> bool" where
  "is_write_start e \<longleftrightarrow> (case e of Start s d \<Rightarrow> d = I2C_WRITE | _ \<Rightarrow> False)"

text \<open>
  \<open>paired opn es\<close>: in \<open>es\<close> no transaction is opened while one is open
  (\<open>opn\<close> tells whether one is open at the beginning), and none is open at
  the end.
\<close>

fun paired :: "bool \<Rightarrow> bus_event list \<Rightarrow> bool" where
  "paired opn [] = (\<not> opn)"
| "paired opn (Start s d # es) = (\<not> opn \<and> paired True es)"
| "paired opn (Stop # es) = paired False es"
| "paired opn (e # es) = paired opn es"

text \<open>
  Concrete inputs: an idle bus whose device is erased (every cell \<open>0xFF\<close>)
  and expects \<open>n\<close> address bytes, an instance that has not been initialised,
  and two payloads.
\<close>

definition blank :: "nat \<Rightarrow> world" where
  "blank n = \<lparr>trace = [], phase = Idle, selected = 0, pointer = 0,
               cells = (\<lambda>s p. 0xFF), addr_width = n\<rparr>"

definition unset :: eeprom where
  "unset = \<lparr>eeprom_address = 0, eeprom_size = 0\<rparr>"

definition ramp :: "nat \<Rightarrow> 8 word" where
  "ramp k = of_nat k"

definition fill :: "8 word \<Rightarrow> nat \<Rightarrow> 8 word" where
  "fill b k = b"

section \<open>The bus primitives on the trace\<close>

lemma trace_i2c_start_wait [simp]: "trace (i2c_start_wait s d w) = trace w @ [Start s d]"
  by (simp add: i2c_start_wait_def)

lemma trace_i2c_write [simp]: "trace (i2c_write b w) = trace w @ [Write b]"
  by (simp add: i2c_write_def split: bus_phase.split)

lemma trace_i2c_stop [simp]: "trace (i2c_stop w) = trace w @ [Stop]"
  by (simp add: i2c_stop_def)

lemma trace_fetch [simp]: "trace (snd (fetch w)) = trace w"
  by (simp add: fetch_def split: bus_phase.split)

lemma trace_i2c_readAck [simp]: "trace (snd (i2c_readAck w)) = trace w @ [ReadAck]"
  by (simp add: i2c_readAck_def split: prod.split) (metis snd_conv trace_fetch)

lemma trace_i2c_readNak [simp]: "trace (snd (i2c_readNak w)) = trace w @ [ReadNak]"
  by (simp add: i2c_readNak_def split: prod.split) (metis snd_conv trace_fetch)

lemma write_bytes_Nil [simp]: "write_bytes [] w = w"
  by (simp add: write_bytes_def)

lemma write_bytes_Cons [simp]: "write_bytes (b # bs) w = write_bytes bs (i2c_write b w)"
  by (simp add: write_bytes_def)

lemma trace_write_bytes [simp]: "trace (write_bytes bs w) = trace w @ map Write bs"
  by (induction bs arbitrary: w) simp_all

lemma emitted_append [simp]: "trace w' = trace w @ es \<Longrightarrow> emitted w w' = es"
  by (simp add: emitted_def)

section \<open>Word arithmetic of the address computations\<close>

lemma unat_succ: "(x :: 'a::len word) < y \<Longrightarrow> unat (x + 1) = Suc (unat x)"
proof -
  assume "x < y"
  then have "unat x < unat y"
    by (simp add: word_less_nat_alt)
  moreover have "unat y < 2 ^ LENGTH('a)"
    by (rule unsigned_less)
  ultimately have "unat x + 1 < 2 ^ LENGTH('a)"
    by linarith
  then show ?thesis
    by (simp add: unat_word_ariths)
qed

lemma upt_add_Suc: "[a ..< a + Suc k] = a # [Suc a ..< Suc a + k]"
  by (simp add: upt_rec)

text \<open>
  The address byte is cut to 8 bits by \<^verbatim>\<open>i2c_write\<close>, so the 16-bit sum is
  a sum modulo 256.
\<close>

lemma lo_add:
  "(ucast ((ucast (ucast m :: 8 word) :: 16 word) + k * p) :: 8 word) =
     ucast (m :: 16 word) + ucast k * ucast p"
  by (simp add: word_eq_iff_unsigned [where ?'a = nat] unsigned_ucast_eq take_bit_eq_mod
        unat_word_ariths mod_mod_cancel mod_simps)

lemma lo_add2:
  "(ucast ((m AND 0x00FF) + k * p) :: 8 word) = ucast (m :: 16 word) + ucast k * ucast p"
proof -
  have "m AND 0x00FF = take_bit 8 m"
    by (simp add: take_bit_eq_mask mask_numeral)
  then show ?thesis
    by (simp add: word_eq_iff_unsigned [where ?'a = nat] unsigned_ucast_eq unsigned_take_bit_eq
          take_bit_eq_mod unat_word_ariths mod_mod_cancel mod_simps)
qed

lemma hi_byte: "(ucast (drop_bit 8 (m :: 16 word) AND 255) :: 8 word) = ucast (drop_bit 8 m)"
proof -
  have h: "(255 :: 16 word) = mask 8"
    by (simp add: mask_numeral)
  show ?thesis
    unfolding h by (auto intro!: bit_word_eqI simp add: bit_simps)
qed

lemma lo_byte: "(ucast ((m :: 16 word) AND 255) :: 8 word) = ucast m"
proof -
  have h: "(255 :: 16 word) = mask 8"
    by (simp add: mask_numeral)
  show ?thesis
    unfolding h by (auto intro!: bit_word_eqI simp add: bit_simps)
qed

lemma lo_byte_twice:
  "(ucast (ucast (ucast (m :: 16 word) :: 8 word) :: 16 word) :: 8 word) = ucast m"
  by (auto intro!: bit_word_eqI simp add: bit_simps)

text \<open>The masks 1, 3 and 7 of the branches for 4, 8 and 16 Kbit keep 1, 2 and 3 bits.\<close>

lemma fold_bits:
  "(ucast ((ucast (x :: 8 word) :: 16 word) OR (drop_bit 8 (m :: 16 word) AND 1)) :: 8 word) =
     x OR (ucast (drop_bit 8 m) AND mask 1)"
  "(ucast ((ucast (x :: 8 word) :: 16 word) OR (drop_bit 8 (m :: 16 word) AND 3)) :: 8 word) =
     x OR (ucast (drop_bit 8 m) AND mask 2)"
  "(ucast ((ucast (x :: 8 word) :: 16 word) OR (drop_bit 8 (m :: 16 word) AND 7)) :: 8 word) =
     x OR (ucast (drop_bit 8 m) AND mask 3)"
proof -
  have h: "(1 :: 16 word) = mask 1" "(3 :: 16 word) = mask 2" "(7 :: 16 word) = mask 3"
    by (simp_all add: mask_numeral)
  show "(ucast ((ucast (x :: 8 word) :: 16 word) OR (drop_bit 8 (m :: 16 word) AND 1)) :: 8 word) =
     x OR (ucast (drop_bit 8 m) AND mask 1)"
    unfolding h by (auto intro!: bit_word_eqI simp add: bit_simps)
  show "(ucast ((ucast (x :: 8 word) :: 16 word) OR (drop_bit 8 (m :: 16 word) AND 3)) :: 8 word) =
     x OR (ucast (drop_bit 8 m) AND mask 2)"
    unfolding h by (auto intro!: bit_word_eqI simp add: bit_simps)
  show "(ucast ((ucast (x :: 8 word) :: 16 word) OR (drop_bit 8 (m :: 16 word) AND 7)) :: 8 word) =
     x OR (ucast (drop_bit 8 m) AND mask 3)"
    unfolding h by (auto intro!: bit_word_eqI simp add: bit_simps)
qed

lemmas table_defs =
  spec_page_size_def spec_address_bits_in_select_byte_def spec_uses_two_byte_address_def

section \<open>The write loops in closed form\<close>

lemma page_for_eq:
  "bytes_written \<le> datasize \<Longrightarrow>
   page_for lim i data datasize bytes_written w =
     (bytes_written + of_nat (min (unat lim - unat i) (unat datasize - unat bytes_written)),
      write_bytes (map data [unat bytes_written ..<
         unat bytes_written + min (unat lim - unat i) (unat datasize - unat bytes_written)]) w)"
proof (induction lim i data datasize bytes_written w rule: page_for.induct)
  case (1 lim i data datasize bytes_written w)
  show ?case
  proof (cases "i < lim \<and> bytes_written < datasize")
    case False
    then have "min (unat lim - unat i) (unat datasize - unat bytes_written) = 0"
      by (auto simp: word_less_nat_alt)
    moreover from False have "page_for lim i data datasize bytes_written w = (bytes_written, w)"
      by (subst page_for.simps) auto
    ultimately show ?thesis
      by simp
  next
    case True
    then have i: "unat i < unat lim" and b: "unat bytes_written < unat datasize"
      by (simp_all add: word_less_nat_alt)
    have si: "unat (i + 1) = Suc (unat i)"
      using True by (blast intro: unat_succ)
    have sb: "unat (bytes_written + 1) = Suc (unat bytes_written)"
      using True by (blast intro: unat_succ)
    have le: "bytes_written + 1 \<le> datasize"
      using b sb by (simp add: word_le_nat_alt)
    define k where "k = min (unat lim - unat (i + 1)) (unat datasize - unat (bytes_written + 1))"
    have k: "min (unat lim - unat i) (unat datasize - unat bytes_written) = Suc k"
      using i b si sb by (simp add: k_def)
    have "page_for lim i data datasize bytes_written w =
          page_for lim (i + 1) data datasize (bytes_written + 1)
             (i2c_write (data (unat bytes_written)) w)"
      using True by (subst page_for.simps) simp
    also have "\<dots> = (bytes_written + 1 + of_nat k,
        write_bytes (map data [unat (bytes_written + 1) ..< unat (bytes_written + 1) + k])
          (i2c_write (data (unat bytes_written)) w))"
      unfolding k_def using "1.IH" [OF True le] .
    finally show ?thesis
      unfolding k sb upt_add_Suc by simp
  qed
qed

lemma run_chunks_Nil [simp]: "run_chunks hdr data [] w = w"
  by (simp add: run_chunks_def)

lemma run_chunks_Cons [simp]:
  "run_chunks hdr data ((pos, from, k) # cs) w =
     run_chunks hdr data cs (write_bytes (map data [from ..< from + k]) (hdr (of_nat pos) w))"
  by (simp add: run_chunks_def)

text \<open>
  The \<^verbatim>\<open>while\<close> loop returns whenever the position it starts from lies inside
  the page, and then it has run the chunks of \<open>chunks\<close>.
\<close>

lemma write_while_eq:
  fixes lim :: "'a::len word"
  assumes "unat pos_in_page < unat lim" and "bytes_written \<le> datasize"
  shows "write_while hdr lim data datasize pos_in_page bytes_written pages_written w =
           Some (run_chunks hdr data
                   (chunks (unat lim) (unat pos_in_page) (unat bytes_written) (unat datasize)) w)"
  using assms
proof (induction "unat datasize - unat bytes_written"
         arbitrary: pos_in_page bytes_written pages_written w rule: less_induct)
  case less
  show ?case
  proof (cases "bytes_written < datasize")
    case False
    then have "chunks (unat lim) (unat pos_in_page) (unat bytes_written) (unat datasize) = []"
      by (subst chunks.simps) (simp add: word_less_nat_alt)
    with False show ?thesis
      by (subst write_while.simps) simp
  next
    case True
    then have b: "unat bytes_written < unat datasize"
      by (simp add: word_less_nat_alt)
    have "unat lim < 2 ^ LENGTH('a)"
      by (rule unsigned_less)
    with less.prems(1) have "unat pos_in_page < 2 ^ LENGTH('a)"
      by linarith
    then have up: "unat (ucast pos_in_page :: 'a word) = unat pos_in_page"
      by (simp add: unsigned_ucast_eq take_bit_nat_eq_self)
    define k where "k = min (unat lim - unat pos_in_page) (unat datasize - unat bytes_written)"
    have k0: "0 < k" and kn: "unat bytes_written + k \<le> unat datasize"
      using less.prems(1) b by (simp_all add: k_def)
    have "unat datasize < 2 ^ 16"
      using unsigned_less [of datasize] by simp
    with kn have un: "unat (bytes_written + of_nat k) = unat bytes_written + k"
      by (simp add: unat_word_ariths unat_of_nat)
    have le: "bytes_written + of_nat k \<le> datasize"
      using kn un by (simp add: word_le_nat_alt)
    have ch: "chunks (unat lim) (unat pos_in_page) (unat bytes_written) (unat datasize) =
              (unat pos_in_page, unat bytes_written, k) #
                chunks (unat lim) 0 (unat bytes_written + k) (unat datasize)"
      using b less.prems(1) by (subst chunks.simps) (simp add: k_def)
    have z: "unat (0 :: 16 word) < unat lim"
      using less.prems(1) by simp
    have "write_while hdr lim data datasize pos_in_page bytes_written pages_written w =
          write_while hdr lim data datasize 0 (bytes_written + of_nat k) (pages_written + 1)
            (write_bytes (map data [unat bytes_written ..< unat bytes_written + k])
               (hdr pos_in_page w))"
      using True less.prems(2)
      by (subst write_while.simps) (simp add: page_for_eq up k_def)
    also have "\<dots> = Some (run_chunks hdr data
        (chunks (unat lim) (unat (0 :: 16 word)) (unat (bytes_written + of_nat k)) (unat datasize))
        (write_bytes (map data [unat bytes_written ..< unat bytes_written + k])
           (hdr pos_in_page w)))"
      using k0 kn un by (intro less.hyps [OF _ z le]) simp
    also have "\<dots> = Some (run_chunks hdr data
        (chunks (unat lim) (unat pos_in_page) (unat bytes_written) (unat datasize)) w)"
      by (simp add: ch un)
    finally show ?thesis .
  qed
qed

text \<open>
  Every branch of \<open>eeprom_write\<close> is the scheme of the spec's tables: the
  page size of the class bounds the chunks, and the header of a chunk is
  \<open>write_header\<close>.
\<close>

lemma eeprom_write_eq:
  assumes "supported (eeprom_size a)"
  shows "eeprom_write a m data n w =
     Some (i2c_stop (run_chunks (write_header a m) data
        (chunks (spec_page_size (eeprom_size a))
           (unat m mod spec_page_size (eeprom_size a)) 0 (unat n)) w))"
proof -
  consider "eeprom_size a = 1" | "eeprom_size a = 2" | "eeprom_size a = 4" | "eeprom_size a = 8"
    | "eeprom_size a = 16" | "eeprom_size a = 32" | "eeprom_size a = 64" | "eeprom_size a = 128"
    | "eeprom_size a = 256" | "eeprom_size a = 512" | "eeprom_size a = 1024"
    using assms by (auto simp: supported_def)
  then show ?thesis
    by cases
      (simp_all add: eeprom_write_def Let_def write_while_eq unat_mod table_defs
         write_header_def [abs_def] address_bytes_def select_byte_def
         lo_add lo_add2 hi_byte fold_bits)
qed

lemma eeprom_write_unsupported:
  assumes "\<not> supported (eeprom_size a)"
  shows "eeprom_write a m data n w = Some (i2c_stop w)"
  using assms by (simp add: eeprom_write_def supported_def)

lemma trace_write_header [simp]:
  "trace (write_header a m pos w) =
     trace w @ Start (select_byte a m) I2C_WRITE # map Write (address_bytes a m pos)"
  by (simp add: write_header_def)

lemma trace_run_chunks:
  "trace (run_chunks (write_header a m) data cs w) =
     trace w @ concat (map (chunk_events a m data) cs)"
  by (induction cs arbitrary: w) (auto simp: chunk_events_def payload_def)

lemma write_trace_supported:
  assumes "supported (eeprom_size a)"
  shows "write_trace a m data n w = Some (write_events a m data n)"
  by (simp add: write_trace_def eeprom_write_eq [OF assms] trace_run_chunks write_events_def)

lemma write_trace_unsupported:
  assumes "\<not> supported (eeprom_size a)"
  shows "write_trace a m data n w = Some [Stop]"
  by (simp add: write_trace_def eeprom_write_unsupported [OF assms])

section \<open>The read loop in closed form\<close>

text \<open>
  The loop runs until \<open>bytes_read\<close> has reached \<open>datasize - 1\<close>, a difference
  of 16-bit words: it acknowledges \<open>unat (datasize - 1)\<close> bytes from 0 and
  stores them at the indices below that number.
\<close>

lemma read_while_eq:
  "bytes_read \<le> datasize - 1 \<Longrightarrow>
   \<exists>data' w'. read_while data datasize bytes_read w = (data', datasize - 1, w') \<and>
      trace w' = trace w @ replicate (unat (datasize - 1) - unat bytes_read) ReadAck \<and>
      dom data' = dom data \<union> {unat bytes_read ..< unat (datasize - 1)} \<and>
      (\<forall>i. i \<notin> {unat bytes_read ..< unat (datasize - 1)} \<longrightarrow> data' i = data i)"
proof (induction data datasize bytes_read w rule: read_while.induct)
  case (1 data datasize bytes_read w)
  show ?case
  proof (cases "bytes_read < datasize - 1")
    case False
    with "1.prems" have e: "bytes_read = datasize - 1"
      by simp
    have "read_while data datasize bytes_read w = (data, bytes_read, w)"
      using False by (subst read_while.simps) simp
    then show ?thesis
      by (simp add: e)
  next
    case True
    obtain v w1 where r: "i2c_readAck w = (v, w1)"
      by (cases "i2c_readAck w")
    have t: "trace w1 = trace w @ [ReadAck]"
      using trace_i2c_readAck [of w] by (simp add: r)
    have s: "unat (bytes_read + 1) = Suc (unat bytes_read)"
      using True by (rule unat_succ)
    have lt: "unat bytes_read < unat (datasize - 1)"
      using True by (simp add: word_less_nat_alt)
    have le: "bytes_read + 1 \<le> datasize - 1"
      using lt s by (simp add: word_le_nat_alt)
    from "1.IH" [OF True r [symmetric] le]
    obtain data' w' where
      rw: "read_while (data(unat bytes_read \<mapsto> v)) datasize (bytes_read + 1) w1 =
             (data', datasize - 1, w')"
      and tr: "trace w' = trace w1 @ replicate (unat (datasize - 1) - unat (bytes_read + 1)) ReadAck"
      and dm: "dom data' = dom (data(unat bytes_read \<mapsto> v)) \<union>
                 {unat (bytes_read + 1) ..< unat (datasize - 1)}"
      and ot: "\<forall>i. i \<notin> {unat (bytes_read + 1) ..< unat (datasize - 1)} \<longrightarrow>
                 data' i = (data(unat bytes_read \<mapsto> v)) i"
      by blast
    have "read_while data datasize bytes_read w = (data', datasize - 1, w')"
      using True by (subst read_while.simps) (simp add: r rw)
    moreover have "trace w' = trace w @ replicate (unat (datasize - 1) - unat bytes_read) ReadAck"
    proof -
      from lt have "unat (datasize - 1) - unat bytes_read =
                    Suc (unat (datasize - 1) - Suc (unat bytes_read))"
        by simp
      then show ?thesis
        by (simp add: tr t s)
    qed
    moreover have "dom data' = dom data \<union> {unat bytes_read ..< unat (datasize - 1)}"
      using lt by (auto simp: dm s)
    moreover have "\<forall>i. i \<notin> {unat bytes_read ..< unat (datasize - 1)} \<longrightarrow> data' i = data i"
      using lt ot by (auto simp: s)
    ultimately show ?thesis
      by blast
  qed
qed

lemma read_bytes_eq:
  "\<exists>data' w'. read_bytes data datasize 0 w = (data', w') \<and>
      trace w' = trace w @ replicate (unat (datasize - 1)) ReadAck @ [ReadNak] \<and>
      dom data' = dom data \<union> {.. unat (datasize - 1)} \<and>
      (\<forall>i. unat (datasize - 1) < i \<longrightarrow> data' i = data i)"
proof -
  from read_while_eq [of 0 datasize data w]
  obtain d1 w1 where
    rw: "read_while data datasize 0 w = (d1, datasize - 1, w1)"
    and tr: "trace w1 = trace w @ replicate (unat (datasize - 1)) ReadAck"
    and dm: "dom d1 = dom data \<union> {0 ..< unat (datasize - 1)}"
    and ot: "\<forall>i. i \<notin> {0 ..< unat (datasize - 1)} \<longrightarrow> d1 i = data i"
    by auto
  obtain v w2 where r: "i2c_readNak w1 = (v, w2)"
    by (cases "i2c_readNak w1")
  have t: "trace w2 = trace w1 @ [ReadNak]"
    using trace_i2c_readNak [of w1] by (simp add: r)
  have "read_bytes data datasize 0 w = (d1(unat (datasize - 1) \<mapsto> v), w2)"
    by (simp add: read_bytes_def rw r)
  moreover have "trace w2 = trace w @ replicate (unat (datasize - 1)) ReadAck @ [ReadNak]"
    by (simp add: t tr)
  moreover have "dom (d1(unat (datasize - 1) \<mapsto> v)) = dom data \<union> {.. unat (datasize - 1)}"
    by (auto simp: dm)
  moreover have "\<forall>i. unat (datasize - 1) < i \<longrightarrow> (d1(unat (datasize - 1) \<mapsto> v)) i = data i"
    using ot by auto
  ultimately show ?thesis
    by blast
qed

lemma trace_read_setup [simp]:
  "trace (read_setup a m w) =
     trace w @ Start (select_byte a m) I2C_WRITE # map Write (read_address_bytes a m) @
       [Stop, Start (select_byte a m) I2C_READ]"
  by (simp add: read_setup_def)

lemma eeprom_read_eq:
  assumes "supported (eeprom_size a)"
  shows "eeprom_read a m data n w =
     (case read_bytes data n 0 (read_setup a m w) of (data', w') \<Rightarrow> (data', i2c_stop w'))"
proof -
  consider "eeprom_size a = 1" | "eeprom_size a = 2" | "eeprom_size a = 4" | "eeprom_size a = 8"
    | "eeprom_size a = 16" | "eeprom_size a = 32" | "eeprom_size a = 64" | "eeprom_size a = 128"
    | "eeprom_size a = 256" | "eeprom_size a = 512" | "eeprom_size a = 1024"
    using assms by (auto simp: supported_def)
  then show ?thesis
    by cases
      (simp_all add: eeprom_read_def Let_def table_defs read_setup_def read_address_bytes_def
         select_byte_def hi_byte lo_byte lo_byte_twice fold_bits)
qed

lemma eeprom_read_unsupported:
  assumes "\<not> supported (eeprom_size a)"
  shows "eeprom_read a m data n w = (data, i2c_stop w)"
  using assms by (simp add: eeprom_read_def supported_def)

lemma eeprom_read_facts:
  assumes "supported (eeprom_size a)"
  shows "\<exists>data' w'. eeprom_read a m data n w = (data', w') \<and>
      trace w' = trace w @ read_events a m n \<and>
      dom data' = dom data \<union> {.. unat (n - 1)} \<and>
      (\<forall>i. unat (n - 1) < i \<longrightarrow> data' i = data i)"
proof -
  from read_bytes_eq [of data n "read_setup a m w"]
  obtain d1 w1 where
    rb: "read_bytes data n 0 (read_setup a m w) = (d1, w1)"
    and tr: "trace w1 = trace (read_setup a m w) @ replicate (unat (n - 1)) ReadAck @ [ReadNak]"
    and dm: "dom d1 = dom data \<union> {.. unat (n - 1)}"
    and ot: "\<forall>i. unat (n - 1) < i \<longrightarrow> d1 i = data i"
    by blast
  have "eeprom_read a m data n w = (d1, i2c_stop w1)"
    by (simp add: eeprom_read_eq [OF assms] rb)
  moreover have "trace (i2c_stop w1) = trace w @ read_events a m n"
    by (simp add: tr read_events_def)
  ultimately show ?thesis
    using dm ot by blast
qed

lemma read_trace_supported:
  assumes "supported (eeprom_size a)"
  shows "read_trace a m buf n w = read_events a m n"
  using eeprom_read_facts [OF assms, of m buf n w] by (auto simp: read_trace_def)

lemma read_trace_unsupported:
  assumes "\<not> supported (eeprom_size a)"
  shows "read_trace a m buf n w = [Stop]"
  by (simp add: read_trace_def eeprom_read_unsupported [OF assms])

lemma read_buffer_supported:
  assumes "supported (eeprom_size a)"
  shows "dom (fst (eeprom_read a m buf n w)) = dom buf \<union> {.. unat (n - 1)}"
    and "unat (n - 1) < i \<Longrightarrow> fst (eeprom_read a m buf n w) i = buf i"
proof -
  from eeprom_read_facts [OF assms, of m buf n w]
  obtain data' w' where
    e: "eeprom_read a m buf n w = (data', w')"
    and dm: "dom data' = dom buf \<union> {.. unat (n - 1)}"
    and ot: "\<forall>i. unat (n - 1) < i \<longrightarrow> data' i = buf i"
    by blast
  show "dom (fst (eeprom_read a m buf n w)) = dom buf \<union> {.. unat (n - 1)}"
    by (simp add: e dm)
  show "unat (n - 1) < i \<Longrightarrow> fst (eeprom_read a m buf n w) i = buf i"
    by (simp add: e ot)
qed

lemma unat_pred: "1 \<le> (n :: 16 word) \<Longrightarrow> unat (n - 1) = unat n - 1"
  by (simp add: unat_sub)

section \<open>Filters and page arithmetic\<close>

lemma filter_is_read_Write [simp]: "filter is_read (map Write bs) = []"
  by (induction bs) (simp_all add: is_read_def)

lemma filter_is_read_replicate [simp]: "filter is_read (replicate k ReadAck) = replicate k ReadAck"
  by (induction k) (simp_all add: is_read_def)

lemma filter_is_write_start_Write [simp]: "filter is_write_start (map Write bs) = []"
  by (induction bs) (simp_all add: is_write_start_def)

lemma filter_is_write_start_payload [simp]: "filter is_write_start (payload data from k) = []"
  by (simp add: payload_def filter_map o_def is_write_start_def)

lemma div_eq_1_iff:
  assumes "0 < ps"
  shows "(x :: nat) div ps = 1 \<longleftrightarrow> ps \<le> x \<and> x < 2 * ps"
proof
  assume h: "x div ps = 1"
  have "x = ps * (x div ps) + x mod ps"
    by simp
  with h have "x = ps + x mod ps"
    by simp
  moreover have "x mod ps < ps"
    using assms by simp
  ultimately show "ps \<le> x \<and> x < 2 * ps"
    by linarith
next
  assume h: "ps \<le> x \<and> x < 2 * ps"
  then have lt: "x - ps < ps"
    by linarith
  from h have "x div ps = (ps + (x - ps)) div ps"
    by simp
  also have "\<dots> = 1 + (x - ps) div ps"
    using assms div_add_self1 [of ps "x - ps"] by simp
  also have "\<dots> = 1"
    using lt by simp
  finally show "x div ps = 1" .
qed

text \<open>
  A range of \<open>n\<close> bytes from \<open>m\<close> ends in the page after the one it begins in
  exactly when it is longer than the rest of the first page and no longer than
  that rest and one more page.
\<close>

lemma crosses_one_boundary_iff:
  assumes "0 < ps" "0 < n"
  shows "((m :: nat) + n - 1) div ps = m div ps + 1 \<longleftrightarrow>
           ps - m mod ps < n \<and> n \<le> 2 * ps - m mod ps"
proof -
  have r: "m mod ps < ps"
    using assms by simp
  have "m + n - 1 = ps * (m div ps) + (m mod ps + n - 1)"
    using assms(2) by (simp add: add.assoc [symmetric])
  then have "(m + n - 1) div ps = (ps * (m div ps) + (m mod ps + n - 1)) div ps"
    by simp
  also have "\<dots> = m div ps + (m mod ps + n - 1) div ps"
    using assms(1) by simp
  finally have "(m + n - 1) div ps = m div ps + 1 \<longleftrightarrow> (m mod ps + n - 1) div ps = 1"
    by simp
  also have "\<dots> \<longleftrightarrow> ps \<le> m mod ps + n - 1 \<and> m mod ps + n - 1 < 2 * ps"
    using assms(1) by (rule div_eq_1_iff)
  also have "\<dots> \<longleftrightarrow> ps - m mod ps < n \<and> n \<le> 2 * ps - m mod ps"
    using r assms(2) by linarith
  finally show ?thesis .
qed

text \<open>The chunks of a request that runs over one page boundary.\<close>

lemma chunks_two:
  assumes "pos < ps" and "ps - pos < n" and "n \<le> 2 * ps - pos"
  shows "chunks ps pos 0 n = [(pos, 0, ps - pos), (0, ps - pos, n - (ps - pos))]"
proof -
  have a: "chunks ps pos 0 n = (pos, 0, ps - pos) # chunks ps 0 (ps - pos) n"
    using assms by (subst chunks.simps) (simp add: min_def)
  have m: "min (ps - 0) (n - (ps - pos)) = n - (ps - pos)"
    using assms by simp
  have e: "ps - pos + (n - (ps - pos)) = n"
    using assms by simp
  have "chunks ps 0 (ps - pos) n =
          (0, ps - pos, min (ps - 0) (n - (ps - pos))) #
            chunks ps 0 (ps - pos + min (ps - 0) (n - (ps - pos))) n"
    using assms by (subst chunks.simps) simp
  then have b: "chunks ps 0 (ps - pos) n = (0, ps - pos, n - (ps - pos)) # chunks ps 0 n n"
    by (simp only: m e)
  have c: "chunks ps 0 n n = []"
    by (subst chunks.simps) simp
  show ?thesis
    by (simp add: a b c)
qed

lemma spec_page_size_pos: "supported c \<Longrightarrow> 0 < spec_page_size c"
  by (auto simp: supported_def spec_page_size_def)

section \<open>Payload bytes in the cells of the device\<close>

lemma write_bytes_Storing:
  "phase w = Storing \<Longrightarrow>
   phase (write_bytes bs w) = Storing \<and>
   selected (write_bytes bs w) = selected w \<and>
   addr_width (write_bytes bs w) = addr_width w \<and>
   pointer (write_bytes bs w) = pointer w + length bs \<and>
   (\<forall>s p. cells (write_bytes bs w) s p =
      (if s = selected w \<and> pointer w \<le> p \<and> p < pointer w + length bs
       then bs ! (p - pointer w) else cells w s p))"
proof (induction bs arbitrary: w)
  case Nil
  then show ?case by auto
next
  case (Cons b bs)
  let ?w = "i2c_write b w"
  have w: "phase ?w = Storing" "selected ?w = selected w" "addr_width ?w = addr_width w"
    "pointer ?w = pointer w + 1"
    "\<And>s p. cells ?w s p = (if s = selected w \<and> p = pointer w then b else cells w s p)"
    using Cons.prems by (simp_all add: i2c_write_def)
  from Cons.IH [OF w(1)] show ?case
    by (auto simp: w nth_Cons')
qed

lemma header2_facts:
  assumes "addr_width w = 2"
  shows "phase (write_bytes [h, l] (i2c_start_wait s I2C_WRITE w)) = Storing"
    and "selected (write_bytes [h, l] (i2c_start_wait s I2C_WRITE w)) = s"
    and "pointer (write_bytes [h, l] (i2c_start_wait s I2C_WRITE w)) = unat h * 256 + unat l"
    and "cells (write_bytes [h, l] (i2c_start_wait s I2C_WRITE w)) = cells w"
    and "addr_width (write_bytes [h, l] (i2c_start_wait s I2C_WRITE w)) = addr_width w"
  using assms by (simp_all add: i2c_start_wait_def i2c_write_def addr_value_def)

lemma header1_facts:
  assumes "addr_width w = 1"
  shows "phase (write_bytes [l] (i2c_start_wait s I2C_WRITE w)) = Storing"
    and "selected (write_bytes [l] (i2c_start_wait s I2C_WRITE w)) = s"
    and "pointer (write_bytes [l] (i2c_start_wait s I2C_WRITE w)) = unat l"
    and "cells (write_bytes [l] (i2c_start_wait s I2C_WRITE w)) = cells w"
    and "addr_width (write_bytes [l] (i2c_start_wait s I2C_WRITE w)) = addr_width w"
  using assms by (simp_all add: i2c_start_wait_def i2c_write_def addr_value_def)

section \<open>Starts and stops in a trace\<close>

lemma paired_Write [simp]: "paired opn (map Write bs @ es) = paired opn es"
  by (induction bs) simp_all

lemma paired_ReadAck [simp]: "paired opn (replicate k ReadAck @ es) = paired opn es"
  by (induction k) simp_all

lemma Stop_notin_chunk_events: "Stop \<notin> set (chunk_events a m data c)"
  by (cases c) (auto simp: chunk_events_def payload_def)

lemmas eval_defs = supported_def write_events_def read_events_def table_defs chunks.simps
  chunk_events_def select_byte_def address_bytes_def read_address_bytes_def

section \<open>Sequential coverage of the written range\<close>

text \<open>
  Claim C1 says that every chunk after the first addresses the start of the
  next page, and that for capacity class 1024 a write of 300 bytes at offset 0
  sends 256 bytes under the address bytes \<open>0x00, 0x00\<close> and then 44 bytes
  under the address bytes \<open>0x01, 0x00\<close>.  The code at this input: the address
  bytes are computed from \<^verbatim>\<open>mem_address\<close> and \<^verbatim>\<open>pos_in_page\<close> alone
  (\<^verbatim>\<open>pages_written\<close> is counted and never used), so the second transaction
  carries \<open>0x00, 0x00\<close> again.  On an erased device with two address bytes,
  byte 256 of the payload ends in cell 0 and cell 256 stays erased.
\<close>

theorem eeprom_write_1024_300:
  "write_trace \<lparr>eeprom_address = 0xA0, eeprom_size = 1024\<rparr> 0 data 300 w =
     Some (Start 0xA0 I2C_WRITE # Write 0x00 # Write 0x00 # payload data 0 256 @
           Start 0xA0 I2C_WRITE # Write 0x00 # Write 0x00 # payload data 256 44 @ [Stop]) \<and>
   stored (eeprom_write \<lparr>eeprom_address = 0xA0, eeprom_size = 1024\<rparr> 0 data 300 (blank 2))
     0xA0 0 = Some (data 256) \<and>
   stored (eeprom_write \<lparr>eeprom_address = 0xA0, eeprom_size = 1024\<rparr> 0 data 300 (blank 2))
     0xA0 256 = Some 0xFF"
proof -
  define a where "a = \<lparr>eeprom_address = 0xA0, eeprom_size = 1024\<rparr>"
  define xs where "xs = map data [0 ..< 0 + 256]"
  define ys where "ys = map data [256 ..< 256 + 44]"
  define w1 where "w1 = write_bytes [0, 0] (i2c_start_wait 0xA0 I2C_WRITE (blank 2))"
  define w2 where "w2 = write_bytes xs w1"
  define w3 where "w3 = write_bytes [0, 0] (i2c_start_wait 0xA0 I2C_WRITE w2)"
  define w4 where "w4 = write_bytes ys w3"
  have s: "supported (eeprom_size a)"
    by (simp add: supported_def a_def)
  have h: "write_header a 0 0 = (\<lambda>w. write_bytes [0, 0] (i2c_start_wait 0xA0 I2C_WRITE w))"
    by (simp add: write_header_def address_bytes_def select_byte_def table_defs a_def fun_eq_iff)
  have c: "chunks 256 0 0 300 = [(0, 0, 256), (0, 256, 44)]"
    by (simp add: chunks.simps)
  have t: "write_trace a 0 data 300 w =
     Some (Start 0xA0 I2C_WRITE # Write 0x00 # Write 0x00 # payload data 0 256 @
           Start 0xA0 I2C_WRITE # Write 0x00 # Write 0x00 # payload data 256 44 @ [Stop])"
    unfolding write_trace_supported [OF s]
    by (simp add: write_events_def table_defs c chunk_events_def select_byte_def
          address_bytes_def a_def)
  have e: "eeprom_write a 0 data 300 (blank 2) = Some (i2c_stop w4)"
    unfolding eeprom_write_eq [OF s]
    by (simp add: table_defs a_def c h [unfolded a_def] w4_def w3_def w2_def w1_def xs_def ys_def
          del: write_bytes_Cons upt_Suc)
  have b: "addr_width (blank 2) = 2" "cells (blank 2) 0xA0 256 = 0xFF"
    by (simp_all add: blank_def)
  note f1 = header2_facts [OF b(1), of 0 0 "0xA0", folded w1_def]
  note g2 = write_bytes_Storing [OF f1(1), of xs, folded w2_def]
  have aw2: "addr_width w2 = 2"
    using g2 f1(5) b(1) by simp
  note f3 = header2_facts [OF aw2, of 0 0 "0xA0", folded w3_def]
  note g4 = write_bytes_Storing [OF f3(1), of ys, folded w4_def]
  have lx: "length xs = 256" and ly: "length ys = 44" and y0: "ys ! 0 = data 256"
    by (simp_all add: xs_def ys_def del: upt_Suc)
  have "cells w4 0xA0 0 = data 256"
    using g4 f3 ly y0 by simp
  moreover have "cells w4 0xA0 256 = 0xFF"
    using g4 f3 ly g2 f1 lx b(2) by simp
  ultimately have "stored (eeprom_write a 0 data 300 (blank 2)) 0xA0 0 = Some (data 256)"
    and "stored (eeprom_write a 0 data 300 (blank 2)) 0xA0 256 = Some 0xFF"
    by (simp_all add: stored_def e i2c_stop_def)
  with t show ?thesis
    unfolding a_def by blast
qed

section \<open>Writing and reading back\<close>

text \<open>
  One full page written at a page boundary comes back as written: capacity
  class 1, eight bytes at offset 8 of an erased device.
\<close>

lemma write_then_read_aligned_page:
  "write_then_read \<lparr>eeprom_address = 0xA0, eeprom_size = 1\<rparr> 8 ramp 8 (blank 1) =
     Some [Some 0, Some 1, Some 2, Some 3, Some 4, Some 5, Some 6, Some 7]"
  by (simp add: write_then_read_def eeprom_write_def eeprom_read_def Let_def write_while.simps
      page_for.simps read_bytes_def read_while.simps ramp_def blank_def i2c_start_wait_def
      i2c_write_def i2c_stop_def i2c_readNak_def i2c_readAck_def fetch_def addr_value_def upt_rec)

text \<open>
  Claim C2 says that writing a payload of at most four pages at any offset and
  reading as many bytes back from that offset over the ideal transport yields
  the payload.  The code at capacity class 1 on an erased device: for the
  one-byte payload \<open>0xAB\<close> at offset 1 the write sends the address byte
  \<open>1 + 8 * 1 = 9\<close>, the byte is stored in cell 9, and the read from offset 1
  returns the erased cell \<open>0xFF\<close>; for the nine bytes 0 to 8 at offset 0 the
  second page is addressed at offset 0 again, so that byte 8 replaces byte 0
  and cell 8 stays erased.
\<close>

theorem write_then_read_differs:
  "write_trace \<lparr>eeprom_address = 0xA0, eeprom_size = 1\<rparr> 1 (fill 0xAB) 1 (blank 1) =
     Some [Start 0xA0 I2C_WRITE, Write 0x09, Write 0xAB, Stop] \<and>
   write_then_read \<lparr>eeprom_address = 0xA0, eeprom_size = 1\<rparr> 1 (fill 0xAB) 1 (blank 1) =
     Some [Some 0xFF] \<and>
   write_then_read \<lparr>eeprom_address = 0xA0, eeprom_size = 1\<rparr> 0 ramp 9 (blank 1) =
     Some [Some 8, Some 1, Some 2, Some 3, Some 4, Some 5, Some 6, Some 7, Some 0xFF]"
proof (intro conjI)
  show "write_trace \<lparr>eeprom_address = 0xA0, eeprom_size = 1\<rparr> 1 (fill 0xAB) 1 (blank 1) =
     Some [Start 0xA0 I2C_WRITE, Write 0x09, Write 0xAB, Stop]"
    by (simp add: write_trace_supported eval_defs payload_def fill_def)
  show "write_then_read \<lparr>eeprom_address = 0xA0, eeprom_size = 1\<rparr> 1 (fill 0xAB) 1 (blank 1) =
     Some [Some 0xFF]"
    by (simp add: write_then_read_def eeprom_write_def eeprom_read_def Let_def write_while.simps
      page_for.simps read_bytes_def read_while.simps fill_def blank_def i2c_start_wait_def
      i2c_write_def i2c_stop_def i2c_readNak_def i2c_readAck_def fetch_def addr_value_def)
  show "write_then_read \<lparr>eeprom_address = 0xA0, eeprom_size = 1\<rparr> 0 ramp 9 (blank 1) =
     Some [Some 8, Some 1, Some 2, Some 3, Some 4, Some 5, Some 6, Some 7, Some 0xFF]"
    by (simp add: write_then_read_def eeprom_write_def eeprom_read_def Let_def write_while.simps
      page_for.simps read_bytes_def read_while.simps ramp_def blank_def i2c_start_wait_def
      i2c_write_def i2c_stop_def i2c_readNak_def i2c_readAck_def fetch_def addr_value_def upt_rec)
qed

section \<open>Page size and folded address bits\<close>

text \<open>
  Claim C3: for every supported capacity class, the page size of the write
  segmentation and the number of high address bits folded into the select byte
  are those of the spec's table.  A write puts on the bus the chunks of the
  request cut at multiples of \<open>spec_page_size\<close>, every chunk opened with the
  bus address OR-ed with the offset bits above bit 7 masked to
  \<open>spec_address_bits_in_select_byte\<close> bits, then one stop; a read opens both
  of its transactions with the same select byte.
\<close>

theorem addressing_scheme_matches_table:
  assumes "supported (eeprom_size a)"
  shows "write_trace a m data n w =
           Some (concat (map (\<lambda>(pos, from, k).
                    Start (eeprom_address a OR (ucast (drop_bit 8 m) AND
                             mask (spec_address_bits_in_select_byte (eeprom_size a)))) I2C_WRITE #
                    map Write (address_bytes a m (of_nat pos)) @ payload data from k)
                  (chunks (spec_page_size (eeprom_size a))
                     (unat m mod spec_page_size (eeprom_size a)) 0 (unat n))) @ [Stop]) \<and>
         read_trace a m buf n w =
           Start (eeprom_address a OR (ucast (drop_bit 8 m) AND
                    mask (spec_address_bits_in_select_byte (eeprom_size a)))) I2C_WRITE #
           map Write (read_address_bytes a m) @
           [Stop, Start (eeprom_address a OR (ucast (drop_bit 8 m) AND
                    mask (spec_address_bits_in_select_byte (eeprom_size a)))) I2C_READ] @
           replicate (unat (n - 1)) ReadAck @ [ReadNak, Stop]"
proof -
  have "chunk_events a m data = (\<lambda>(pos, from, k).
                    Start (eeprom_address a OR (ucast (drop_bit 8 m) AND
                             mask (spec_address_bits_in_select_byte (eeprom_size a)))) I2C_WRITE #
                    map Write (address_bytes a m (of_nat pos)) @ payload data from k)"
    by (simp add: fun_eq_iff chunk_events_def select_byte_def)
  then show ?thesis
    by (simp add: write_trace_supported [OF assms] read_trace_supported [OF assms]
          write_events_def read_events_def select_byte_def)
qed

text \<open>
  At capacity class 8 and offset \<open>0x030F\<close> (position 15 of a 16-byte page,
  offset bits 9 and 8 set): three bytes go out as one byte and two bytes, under
  the select byte \<open>0xA3\<close>.
\<close>

theorem addressing_scheme_matches_table_witness:
  "supported (eeprom_size \<lparr>eeprom_address = 0xA0, eeprom_size = 8\<rparr>) \<and>
   write_trace \<lparr>eeprom_address = 0xA0, eeprom_size = 8\<rparr> 0x030F ramp 3 (blank 1) =
     Some [Start 0xA3 I2C_WRITE, Write 0xFF, Write 0,
           Start 0xA3 I2C_WRITE, Write 0x0F, Write 1, Write 2, Stop] \<and>
   read_trace \<lparr>eeprom_address = 0xA0, eeprom_size = 8\<rparr> 0x030F Map.empty 3 (blank 1) =
     [Start 0xA3 I2C_WRITE, Write 0x0F, Stop, Start 0xA3 I2C_READ, ReadAck, ReadAck, ReadNak, Stop]"
proof -
  have s: "supported (eeprom_size \<lparr>eeprom_address = 0xA0, eeprom_size = 8\<rparr>)"
    by (simp add: supported_def)
  have r: "replicate 2 ReadAck = [ReadAck, ReadAck]"
    by (simp add: numeral_2_eq_2)
  show ?thesis
    using addressing_scheme_matches_table [OF s, of "0x030F" ramp 3 "blank 1" Map.empty]
    by (simp add: supported_def r table_defs chunks.simps address_bytes_def
          read_address_bytes_def payload_def ramp_def upt_rec mask_numeral)
qed

section \<open>A write across one page boundary\<close>

text \<open>
  The split of such a write: when the last byte of the range lies in the page
  after the page of the first byte, the code issues two write-mode starts and
  sends \<open>ps - pos\<close> payload bytes after the first and the remaining bytes
  after the second, where \<open>ps\<close> is the page size and \<open>pos\<close> the offset
  modulo \<open>ps\<close>.  Where the bytes go is decided by the address bytes.
\<close>

lemma write_crossing_one_boundary_split:
  assumes "supported (eeprom_size a)"
    and "ps = spec_page_size (eeprom_size a)"
    and "pos = unat m mod ps"
    and "(unat m + unat n - 1) div ps = unat m div ps + 1"
  shows "write_trace a m data n w =
           Some (Start (select_byte a m) I2C_WRITE # map Write (address_bytes a m (of_nat pos)) @
                   payload data 0 (ps - pos) @
                 Start (select_byte a m) I2C_WRITE # map Write (address_bytes a m 0) @
                   payload data (ps - pos) (unat n - (ps - pos)) @
                 [Stop]) \<and>
         map_option (length \<circ> filter is_write_start) (write_trace a m data n w) = Some 2"
proof -
  have ps: "0 < ps"
    using assms(1,2) by (simp add: spec_page_size_pos)
  have n: "0 < unat n"
  proof (rule ccontr)
    assume "\<not> 0 < unat n"
    then have "(unat m + unat n - 1) div ps \<le> unat m div ps"
      by (simp add: div_le_mono)
    with assms(4) show False
      by simp
  qed
  from assms(4) crosses_one_boundary_iff [OF ps n, of "unat m"]
  have c: "ps - pos < unat n \<and> unat n \<le> 2 * ps - pos"
    unfolding assms(3) by blast
  have p: "pos < ps"
    using ps by (simp add: assms(3))
  have ch: "chunks ps pos 0 (unat n) = [(pos, 0, ps - pos), (0, ps - pos, unat n - (ps - pos))]"
    using p c by (intro chunks_two) simp_all
  have t: "write_trace a m data n w =
           Some (Start (select_byte a m) I2C_WRITE # map Write (address_bytes a m (of_nat pos)) @
                   payload data 0 (ps - pos) @
                 Start (select_byte a m) I2C_WRITE # map Write (address_bytes a m 0) @
                   payload data (ps - pos) (unat n - (ps - pos)) @
                 [Stop])"
    using ch by (simp add: write_trace_supported [OF assms(1)] write_events_def chunk_events_def
        assms(2,3) [symmetric])
  have "map_option (length \<circ> filter is_write_start) (write_trace a m data n w) = Some 2"
    by (simp add: t is_write_start_def)
  with t show ?thesis
    by blast
qed

text \<open>
  Claim C4 says that a write across exactly one page boundary issues two
  page-write transactions, each with its payload confined to its own page and
  split at the boundary.  The code at the scenario of the spec for capacity
  class 8, 20 bytes at offset 10 (page size 16, boundary at 16): it sends 6
  bytes and then 14 bytes, as the claim says, but the first under the address
  byte \<open>10 + 16 * 10 = 0xAA\<close> and the second under \<open>0x0A\<close>, the offset of
  the request again.  On an erased device with one address byte the first six
  bytes end in the cells from 170 on, and the other fourteen in the cells 10
  to 23, across the boundary at 16; cell 29 stays erased.  At the aligned
  offset 16 both transactions carry the address byte \<open>0x10\<close>.
\<close>

theorem write_across_boundary_misaddressed:
  "write_trace \<lparr>eeprom_address = 0xA0, eeprom_size = 8\<rparr> 10 data 20 w =
     Some (Start 0xA0 I2C_WRITE # Write 0xAA # payload data 0 6 @
           Start 0xA0 I2C_WRITE # Write 0x0A # payload data 6 14 @ [Stop]) \<and>
   stored (eeprom_write \<lparr>eeprom_address = 0xA0, eeprom_size = 8\<rparr> 10 data 20 (blank 1))
     0xA0 170 = Some (data 0) \<and>
   stored (eeprom_write \<lparr>eeprom_address = 0xA0, eeprom_size = 8\<rparr> 10 data 20 (blank 1))
     0xA0 10 = Some (data 6) \<and>
   stored (eeprom_write \<lparr>eeprom_address = 0xA0, eeprom_size = 8\<rparr> 10 data 20 (blank 1))
     0xA0 16 = Some (data 12) \<and>
   stored (eeprom_write \<lparr>eeprom_address = 0xA0, eeprom_size = 8\<rparr> 10 data 20 (blank 1))
     0xA0 23 = Some (data 19) \<and>
   stored (eeprom_write \<lparr>eeprom_address = 0xA0, eeprom_size = 8\<rparr> 10 data 20 (blank 1))
     0xA0 29 = Some 0xFF \<and>
   write_trace \<lparr>eeprom_address = 0xA0, eeprom_size = 8\<rparr> 16 data 20 w =
     Some (Start 0xA0 I2C_WRITE # Write 0x10 # payload data 0 16 @
           Start 0xA0 I2C_WRITE # Write 0x10 # payload data 16 4 @ [Stop])"
proof -
  define a where "a = \<lparr>eeprom_address = 0xA0, eeprom_size = 8\<rparr>"
  define xs where "xs = map data [0 ..< 0 + 6]"
  define ys where "ys = map data [6 ..< 6 + 14]"
  define w1 where "w1 = write_bytes [0xAA] (i2c_start_wait 0xA0 I2C_WRITE (blank 1))"
  define w2 where "w2 = write_bytes xs w1"
  define w3 where "w3 = write_bytes [0x0A] (i2c_start_wait 0xA0 I2C_WRITE w2)"
  define w4 where "w4 = write_bytes ys w3"
  have s: "supported (eeprom_size a)"
    by (simp add: supported_def a_def)
  have h1: "write_header a 10 10 = (\<lambda>w. write_bytes [0xAA] (i2c_start_wait 0xA0 I2C_WRITE w))"
    by (simp add: write_header_def address_bytes_def select_byte_def table_defs a_def fun_eq_iff)
  have h2: "write_header a 10 0 = (\<lambda>w. write_bytes [0x0A] (i2c_start_wait 0xA0 I2C_WRITE w))"
    by (simp add: write_header_def address_bytes_def select_byte_def table_defs a_def fun_eq_iff)
  have c: "chunks 16 10 0 20 = [(10, 0, 6), (0, 6, 14)]"
    by (simp add: chunks.simps)
  have c': "chunks 16 0 0 20 = [(0, 0, 16), (0, 16, 4)]"
    by (simp add: chunks.simps)
  have t: "write_trace a 10 data 20 w =
     Some (Start 0xA0 I2C_WRITE # Write 0xAA # payload data 0 6 @
           Start 0xA0 I2C_WRITE # Write 0x0A # payload data 6 14 @ [Stop])"
    unfolding write_trace_supported [OF s]
    by (simp add: write_events_def table_defs c chunk_events_def select_byte_def
          address_bytes_def a_def)
  have t': "write_trace a 16 data 20 w =
     Some (Start 0xA0 I2C_WRITE # Write 0x10 # payload data 0 16 @
           Start 0xA0 I2C_WRITE # Write 0x10 # payload data 16 4 @ [Stop])"
    unfolding write_trace_supported [OF s]
    by (simp add: write_events_def table_defs c' chunk_events_def select_byte_def
          address_bytes_def a_def)
  have e: "eeprom_write a 10 data 20 (blank 1) = Some (i2c_stop w4)"
    unfolding eeprom_write_eq [OF s]
    by (simp add: table_defs a_def c h1 [unfolded a_def] h2 [unfolded a_def]
          w4_def w3_def w2_def w1_def xs_def ys_def
          del: write_bytes_Cons upt_Suc)
  have b: "addr_width (blank 1) = 1" "\<And>p. cells (blank 1) 0xA0 p = 0xFF"
    by (simp_all add: blank_def)
  note f1 = header1_facts [OF b(1), of "0xAA" "0xA0", folded w1_def]
  note g2 = write_bytes_Storing [OF f1(1), of xs, folded w2_def]
  have aw2: "addr_width w2 = 1"
    using g2 f1(5) b(1) by simp
  note f3 = header1_facts [OF aw2, of "0x0A" "0xA0", folded w3_def]
  note g4 = write_bytes_Storing [OF f3(1), of ys, folded w4_def]
  have lx: "length xs = 6" and ly: "length ys = 14"
    and x0: "xs ! 0 = data 0" and y0: "ys ! 0 = data 6" and y6: "ys ! 6 = data 12"
    and y13: "ys ! 13 = data 19"
    by (simp_all add: xs_def ys_def del: upt_Suc)
  have "cells w4 0xA0 170 = data 0"
    using g4 f3 ly g2 f1 lx x0 by simp
  moreover have "cells w4 0xA0 10 = data 6"
    using g4 f3 ly y0 by simp
  moreover have "cells w4 0xA0 16 = data 12"
    using g4 f3 ly y6 by simp
  moreover have "cells w4 0xA0 23 = data 19"
    using g4 f3 ly y13 by simp
  moreover have "cells w4 0xA0 29 = 0xFF"
    using g4 f3 ly g2 f1 lx b(2) by simp
  ultimately have
    "stored (eeprom_write a 10 data 20 (blank 1)) 0xA0 170 = Some (data 0)"
    "stored (eeprom_write a 10 data 20 (blank 1)) 0xA0 10 = Some (data 6)"
    "stored (eeprom_write a 10 data 20 (blank 1)) 0xA0 16 = Some (data 12)"
    "stored (eeprom_write a 10 data 20 (blank 1)) 0xA0 23 = Some (data 19)"
    "stored (eeprom_write a 10 data 20 (blank 1)) 0xA0 29 = Some 0xFF"
    unfolding stored_def e by (simp_all add: i2c_stop_def)
  with t t' show ?thesis
    unfolding a_def by blast
qed

section \<open>A read of no bytes\<close>

text \<open>
  Claim C5 says that \<open>eeprom_read\<close> with count 0 issues no bus transaction
  and stores nothing.  The code has no test for a count of 0: it sets the
  address, starts in read mode, and \<^verbatim>\<open>datasize - 1\<close> wraps to 65535, so that
  65535 acknowledged reads and one non-acknowledged read follow and the cells
  0 to 65535 of the buffer are stored.  Here for capacity class 8 at offset 0.
\<close>

theorem eeprom_read_count_zero:
  "read_trace \<lparr>eeprom_address = 0xA0, eeprom_size = 8\<rparr> 0 buf 0 w =
     Start 0xA0 I2C_WRITE # Write 0x00 # Stop # Start 0xA0 I2C_READ #
       replicate 65535 ReadAck @ [ReadNak, Stop] \<and>
   dom (fst (eeprom_read \<lparr>eeprom_address = 0xA0, eeprom_size = 8\<rparr> 0 buf 0 w)) =
     dom buf \<union> {.. 65535}"
proof -
  have s: "supported (eeprom_size \<lparr>eeprom_address = 0xA0, eeprom_size = 8\<rparr>)"
    by (simp add: supported_def)
  have u: "unat (- 1 :: 16 word) = 65535"
    by (simp add: unsigned_minus_1_eq_mask mask_eq_exp_minus_1)
  show ?thesis
    by (simp add: read_trace_supported [OF s] read_buffer_supported(1) [OF s] read_events_def u
          select_byte_def read_address_bytes_def table_defs)
qed

section \<open>Starts and stops of a write\<close>

text \<open>
  What holds of every call of \<open>eeprom_write\<close>, for every capacity value: it
  returns, its last bus primitive is a stop, which is the only one, and the
  bus is idle afterwards.
\<close>

lemma eeprom_write_single_final_stop:
  "\<exists>body. write_trace a m data n w = Some (body @ [Stop]) \<and> Stop \<notin> set body \<and>
     map_option phase (eeprom_write a m data n w) = Some Idle"
proof (cases "supported (eeprom_size a)")
  case True
  have "Stop \<notin> set (concat (map (chunk_events a m data)
          (chunks (spec_page_size (eeprom_size a))
             (unat m mod spec_page_size (eeprom_size a)) 0 (unat n))))"
    by (auto simp: Stop_notin_chunk_events)
  moreover have "map_option phase (eeprom_write a m data n w) = Some Idle"
    by (simp add: eeprom_write_eq [OF True] i2c_stop_def)
  ultimately show ?thesis
    by (simp add: write_trace_supported [OF True] write_events_def)
next
  case False
  then show ?thesis
    by (simp add: write_trace_unsupported eeprom_write_unsupported i2c_stop_def)
qed

text \<open>
  The sibling \<open>eeprom_read\<close> closes the transaction that sets the address
  with a stop before it starts in read mode, in every branch: its trace never
  opens a transaction while one is open.
\<close>

lemma read_trace_paired:
  assumes "supported (eeprom_size a)"
  shows "paired False (read_trace a m buf n w)"
  by (simp add: read_trace_supported [OF assms] read_events_def)

text \<open>
  Claim C6 says that during \<open>eeprom_write\<close> every opened page-write
  transaction is closed with a stop before the next one is opened.  The code
  at capacity class 1, nine bytes at offset 0: the loop body has no
  \<^verbatim>\<open>i2c_stop()\<close>, so the second page is opened by the start that follows the
  eighth payload byte, with no stop in between.
\<close>

theorem eeprom_write_two_pages_no_stop:
  "write_trace \<lparr>eeprom_address = 0xA0, eeprom_size = 1\<rparr> 0 ramp 9 (blank 1) =
     Some [Start 0xA0 I2C_WRITE, Write 0, Write 0, Write 1, Write 2, Write 3, Write 4, Write 5,
           Write 6, Write 7, Start 0xA0 I2C_WRITE, Write 0, Write 8, Stop] \<and>
   map_option (paired False)
     (write_trace \<lparr>eeprom_address = 0xA0, eeprom_size = 1\<rparr> 0 ramp 9 (blank 1)) = Some False"
  by (simp add: write_trace_supported eval_defs payload_def ramp_def upt_rec)

section \<open>Unsupported capacity values\<close>

text \<open>
  Claim C7 says that for a capacity value outside the enumerated set the write
  leaves the world unchanged.  \<open>eeprom_write\<close> with the value 3 on an idle
  bus: the \<^verbatim>\<open>i2c_stop()\<close> after the chain of tests runs for every capacity
  value, so the call puts a stop on the bus and the world it returns is not
  the world it was given.
\<close>

theorem unsupported_capacity_changes_world:
  "write_trace \<lparr>eeprom_address = 0xA0, eeprom_size = 3\<rparr> 0 ramp 4 (blank 1) = Some [Stop] \<and>
   eeprom_write \<lparr>eeprom_address = 0xA0, eeprom_size = 3\<rparr> 0 ramp 4 (blank 1) \<noteq> Some (blank 1)"
proof -
  have u: "\<not> supported (eeprom_size \<lparr>eeprom_address = 0xA0, eeprom_size = 3\<rparr>)"
    by (simp add: supported_def)
  have "i2c_stop (blank 1) \<noteq> blank 1"
  proof
    assume "i2c_stop (blank 1) = blank 1"
    then have "trace (i2c_stop (blank 1)) = trace (blank 1)"
      by (rule arg_cong)
    then show False
      by simp
  qed
  then show ?thesis
    unfolding write_trace_unsupported [OF u] eeprom_write_unsupported [OF u] by simp
qed

text \<open>
  Claim C7, amended: for a capacity value outside the enumerated set,
  \<open>eeprom_write\<close> and \<open>eeprom_read\<close> return without a bus start and without
  transferring an address or payload byte; each issues a bus stop and nothing
  else, so that the world after the call is the world after that stop.  The
  stored cells and the address pointer of the device are unchanged, and the
  read leaves the output buffer as it was.
\<close>

theorem unsupported_capacity_only_stop:
  assumes "\<not> supported (eeprom_size a)"
  shows "eeprom_write a m data n w = Some (i2c_stop w) \<and>
         eeprom_read a m buf n w = (buf, i2c_stop w) \<and>
         write_trace a m data n w = Some [Stop] \<and>
         map_option cells (eeprom_write a m data n w) = Some (cells w) \<and>
         map_option pointer (eeprom_write a m data n w) = Some (pointer w) \<and>
         read_trace a m buf n w = [Stop] \<and>
         fst (eeprom_read a m buf n w) = buf \<and>
         cells (snd (eeprom_read a m buf n w)) = cells w"
  by (simp add: write_trace_unsupported [OF assms] read_trace_unsupported [OF assms]
        eeprom_write_unsupported [OF assms] eeprom_read_unsupported [OF assms] i2c_stop_def)

theorem unsupported_capacity_only_stop_witness:
  "\<not> supported (eeprom_size \<lparr>eeprom_address = 0xA0, eeprom_size = 3\<rparr>) \<and>
   eeprom_write \<lparr>eeprom_address = 0xA0, eeprom_size = 3\<rparr> 0 ramp 4 (blank 1) =
     Some (i2c_stop (blank 1)) \<and>
   eeprom_read \<lparr>eeprom_address = 0xA0, eeprom_size = 3\<rparr> 0 Map.empty 4 (blank 1) =
     (Map.empty, i2c_stop (blank 1)) \<and>
   write_trace \<lparr>eeprom_address = 0xA0, eeprom_size = 3\<rparr> 0 ramp 4 (blank 1) = Some [Stop] \<and>
   read_trace \<lparr>eeprom_address = 0xA0, eeprom_size = 3\<rparr> 0 Map.empty 4 (blank 1) = [Stop]"
proof -
  have u: "\<not> supported (eeprom_size \<lparr>eeprom_address = 0xA0, eeprom_size = 3\<rparr>)"
    by (simp add: supported_def)
  show ?thesis
    using unsupported_capacity_only_stop [OF u, of 0 ramp 4 "blank 1" Map.empty] u by blast
qed

section \<open>Construction\<close>

text \<open>
  Claim C8 says that constructing a device with an unsupported capacity value
  fails at construction.  \<open>eeprom_init\<close> with the value 3: the instance is
  filled in, and the first write with it issues a stop and nothing else.
\<close>

theorem eeprom_init_accepts_unsupported:
  "fst (eeprom_init unset 0xA0 3 (blank 1)) = \<lparr>eeprom_address = 0xA0, eeprom_size = 3\<rparr> \<and>
   write_trace (fst (eeprom_init unset 0xA0 3 (blank 1))) 0 ramp 4
     (snd (eeprom_init unset 0xA0 3 (blank 1))) = Some [Stop]"
  by (simp add: eeprom_init_def unset_def Let_def write_trace_unsupported supported_def)

text \<open>
  Claim C8, amended: \<open>eeprom_init\<close> has no failure path; for every capacity
  value it initialises the bus and stores the bus address and the value in the
  instance.  With an unsupported value, the writes and reads that use the
  instance issue a bus stop and nothing else.
\<close>

theorem eeprom_init_stores_any_capacity:
  "eeprom_init a dev_address c w = (\<lparr>eeprom_address = dev_address, eeprom_size = c\<rparr>, i2c_init w) \<and>
   (\<not> supported c \<longrightarrow>
      write_trace (fst (eeprom_init a dev_address c w)) m data n w' = Some [Stop] \<and>
      read_trace (fst (eeprom_init a dev_address c w)) m buf n w' = [Stop])"
  by (simp add: eeprom_init_def Let_def write_trace_unsupported read_trace_unsupported)

theorem eeprom_init_stores_any_capacity_witness:
  "eeprom_init unset 0xA0 3 (blank 1) =
     (\<lparr>eeprom_address = 0xA0, eeprom_size = 3\<rparr>, i2c_init (blank 1)) \<and>
   \<not> supported 3 \<and>
   write_trace (fst (eeprom_init unset 0xA0 3 (blank 1))) 0 ramp 4 (i2c_init (blank 1)) = Some [Stop] \<and>
   read_trace (fst (eeprom_init unset 0xA0 3 (blank 1))) 0 Map.empty 4 (i2c_init (blank 1)) = [Stop]"
proof -
  have u: "\<not> supported 3"
    by (simp add: supported_def)
  show ?thesis
    using eeprom_init_stores_any_capacity
            [of unset "0xA0" 3 "blank 1" 0 ramp 4 "i2c_init (blank 1)" Map.empty] u
    by blast
qed

section \<open>Acknowledged and non-acknowledged reads\<close>

text \<open>
  Claim C9: for every supported capacity class and every count of at least 1,
  the reads of \<open>eeprom_read\<close> are count - 1 acknowledged reads followed by
  exactly one non-acknowledged read.
\<close>

theorem eeprom_read_ack_then_nak:
  assumes "supported (eeprom_size a)" and "1 \<le> n"
  shows "filter is_read (read_trace a m buf n w) = replicate (unat n - 1) ReadAck @ [ReadNak]"
  by (simp add: read_trace_supported [OF assms(1)] read_events_def unat_pred [OF assms(2)]
        is_read_def)

theorem eeprom_read_ack_then_nak_witness:
  "supported (eeprom_size \<lparr>eeprom_address = 0xA0, eeprom_size = 8\<rparr>) \<and> (1 :: 16 word) \<le> 3 \<and>
   filter is_read (read_trace \<lparr>eeprom_address = 0xA0, eeprom_size = 8\<rparr> 0x030F Map.empty 3 (blank 1)) =
     [ReadAck, ReadAck, ReadNak]"
proof -
  have s: "supported (eeprom_size \<lparr>eeprom_address = 0xA0, eeprom_size = 8\<rparr>)"
    by (simp add: supported_def)
  have n: "(1 :: 16 word) \<le> 3"
    by simp
  have r: "replicate 2 ReadAck = [ReadAck, ReadAck]"
    by (simp add: numeral_2_eq_2)
  show ?thesis
    using eeprom_read_ack_then_nak [OF s n, of "0x030F" Map.empty "blank 1"]
    by (simp add: supported_def r)
qed

section \<open>Stores into the output buffer\<close>

text \<open>
  Claim C10: for every supported capacity class and every count of at least 1,
  \<open>eeprom_read\<close> stores into the cells 0 to count - 1 of the output buffer
  and into no other cell.
\<close>

theorem eeprom_read_stores_count_bytes:
  assumes "supported (eeprom_size a)" and "1 \<le> n"
  shows "dom (fst (eeprom_read a m buf n w)) = dom buf \<union> {..< unat n} \<and>
         (\<forall>i. unat n \<le> i \<longrightarrow> fst (eeprom_read a m buf n w) i = buf i)"
proof -
  have p: "unat (n - 1) = unat n - 1"
    using assms(2) by (rule unat_pred)
  have "0 < unat n"
    using assms(2) by (simp add: word_le_nat_alt)
  then have e: "{.. unat n - 1} = {..< unat n}"
    by auto
  have "dom (fst (eeprom_read a m buf n w)) = dom buf \<union> {..< unat n}"
    using read_buffer_supported(1) [OF assms(1), of m buf n w] by (simp only: p e)
  moreover have "\<forall>i. unat n \<le> i \<longrightarrow> fst (eeprom_read a m buf n w) i = buf i"
    using \<open>0 < unat n\<close> by (auto intro!: read_buffer_supported(2) [OF assms(1)] simp: p)
  ultimately show ?thesis
    by blast
qed

theorem eeprom_read_stores_count_bytes_witness:
  "supported (eeprom_size \<lparr>eeprom_address = 0xA0, eeprom_size = 8\<rparr>) \<and> (1 :: 16 word) \<le> 3 \<and>
   dom (fst (eeprom_read \<lparr>eeprom_address = 0xA0, eeprom_size = 8\<rparr> 0x030F Map.empty 3 (blank 1))) =
     {..< 3} \<and>
   fst (eeprom_read \<lparr>eeprom_address = 0xA0, eeprom_size = 8\<rparr> 0x030F Map.empty 3 (blank 1)) 3 = None"
proof -
  have s: "supported (eeprom_size \<lparr>eeprom_address = 0xA0, eeprom_size = 8\<rparr>)"
    by (simp add: supported_def)
  have n: "(1 :: 16 word) \<le> 3"
    by simp
  show ?thesis
    using eeprom_read_stores_count_bytes [OF s n, of "0x030F" Map.empty "blank 1"]
    by (simp add: supported_def)
qed

end
